theory Spec2Isabelle
  imports Main "HOL-Library.Sublist"
begin

section \<open>Strings of the source language\<close>

text \<open>
  The helpers are TypeScript on top of a browser-automation library. A source string is
  modelled as a \<^typ>\<open>string\<close>, one \<^typ>\<open>char\<close> per code unit. The two
  built-in string operations the code relies on, \<^verbatim>\<open>toLowerCase\<close> and
  \<^verbatim>\<open>trim\<close>, are modelled on ASCII text: the letters \<open>A\<close> to \<open>Z\<close> have a lower-case
  form, and tab, line feed, vertical tab, form feed, carriage return and space are white
  space. Code units outside ASCII are carried along unchanged and count as neither.
\<close>

definition isSpace :: "char \<Rightarrow> bool" where
  "isSpace c = (c \<in> set [CHR 0x09, CHR 0x0A, CHR 0x0B, CHR 0x0C, CHR 0x0D, CHR '' ''])"

definition lowerChar :: "char \<Rightarrow> char" where
  "lowerChar c =
     (case map_of (zip ''ABCDEFGHIJKLMNOPQRSTUVWXYZ'' ''abcdefghijklmnopqrstuvwxyz'') c of
        Some l \<Rightarrow> l
      | None \<Rightarrow> c)"

definition toLowerCase :: "string \<Rightarrow> string" where
  "toLowerCase s = map lowerChar s"

definition trim :: "string \<Rightarrow> string" where
  "trim s = rev (dropWhile isSpace (rev (dropWhile isSpace s)))"

text \<open>\<^verbatim>\<open>a.includes(b)\<close>: \<open>b\<close> occurs in \<open>a\<close> as a run of consecutive code units.\<close>

fun startsWith :: "string \<Rightarrow> string \<Rightarrow> bool" where
  "startsWith s [] = True"
| "startsWith [] (c # t) = False"
| "startsWith (d # s) (c # t) = (d = c \<and> startsWith s t)"

fun str_includes :: "string \<Rightarrow> string \<Rightarrow> bool" where
  "str_includes [] t = (t = [])"
| "str_includes (c # s) t = (startsWith (c # s) t \<or> str_includes s t)"

text \<open>\<^verbatim>\<open>xs.join(sep)\<close>.\<close>

fun join :: "string \<Rightarrow> string list \<Rightarrow> string" where
  "join sep [] = []"
| "join sep [x] = x"
| "join sep (x # y # ys) = x @ sep @ join sep (y # ys)"

text \<open>
  \<^verbatim>\<open>xs.findIndex(p)\<close>: the position of the first element that satisfies \<open>p\<close>. The
  source's \<open>-1\<close> for "no such element" is \<^term>\<open>None\<close> here.
\<close>

fun findIndex :: "('a \<Rightarrow> bool) \<Rightarrow> 'a list \<Rightarrow> nat option" where
  "findIndex p [] = None"
| "findIndex p (x # xs) =
     (if p x then Some 0 else map_option Suc (findIndex p xs))"

section \<open>WebTableHelper: text matching\<close>

datatype MatchMode = exact | partial

text \<open>
  \<^verbatim>\<open>private normalize(text) { return text.toLowerCase().trim(); }\<close>
\<close>

definition normalize :: "string \<Rightarrow> string" where
  "normalize text = trim (toLowerCase text)"

text \<open>
  \<^verbatim>\<open>private match(a, b, mode) { const A = normalize(a); const B = normalize(b);
  return mode === 'exact' ? A === B : A.includes(B); }\<close>
\<close>

definition match :: "string \<Rightarrow> string \<Rightarrow> MatchMode \<Rightarrow> bool" where
  "match a b mode =
     (let A = normalize a; B = normalize b
      in if mode = exact then A = B else str_includes A B)"

text \<open>
  A number of the source that is used as a time-out: a whole number of milliseconds, or
  \<^verbatim>\<open>Infinity\<close>. \<open>lessThan x t\<close> is the comparison \<^verbatim>\<open>x < t\<close>.
  Fractions are left out, and so are \<^verbatim>\<open>NaN\<close> and \<^verbatim>\<open>-Infinity\<close>, for
  which the comparison is false as it is for a time-out of 0.
\<close>

datatype number = Finite int | Infinity

fun lessThan :: "int \<Rightarrow> number \<Rightarrow> bool" where
  "lessThan x (Finite t) = (x < t)"
| "lessThan x Infinity = True"

text \<open>The text a template literal puts for a number.\<close>

function showNat :: "nat \<Rightarrow> string" where
  "showNat n =
     (if n < 10 then [''0123456789'' ! n]
      else showNat (n div 10) @ [''0123456789'' ! (n mod 10)])"
  by pat_completeness auto
termination
  by (relation "measure (\<lambda>n. n)") auto

declare showNat.simps [simp del]

fun showNumber :: "number \<Rightarrow> string" where
  "showNumber (Finite t) = (if t < 0 then ''-'' @ showNat (nat (- t)) else showNat (nat t))"
| "showNumber Infinity = ''Infinity''"

section \<open>The browser-automation library, as the helpers use it\<close>

text \<open>
  The library is the environment of the code. A locator is a description of elements that
  the library resolves against the page each time it is used; the constructors are the
  ways the helpers build one.
\<close>

datatype locator =
    Selector string              \<comment> \<open>\<^verbatim>\<open>page.locator(selector)\<close>\<close>
  | ByRole string                \<comment> \<open>\<^verbatim>\<open>getByRole(role)\<close>\<close>
  | ByRoleName string string     \<comment> \<open>\<^verbatim>\<open>getByRole(role, { name, exact: true })\<close>\<close>
  | ByLabel string               \<comment> \<open>\<^verbatim>\<open>getByLabel(text, { exact: true })\<close>\<close>
  | ByPlaceholder string         \<comment> \<open>\<^verbatim>\<open>getByPlaceholder(text, { exact: true })\<close>\<close>
  | Nth locator nat              \<comment> \<open>\<^verbatim>\<open>locator.nth(i)\<close>\<close>
  | First locator                \<comment> \<open>\<^verbatim>\<open>locator.first()\<close>\<close>
  | Within locator locator       \<comment> \<open>\<^verbatim>\<open>outer.getByRole(...)\<close>, a locator inside another\<close>

text \<open>The calls the helpers make to the library.\<close>

datatype call =
    Count locator
  | InnerText locator
  | AllInnerTexts locator
  | TextContent locator
  | ToBeVisible locator
  | WaitFor locator nat
  | Fill locator string
  | Click locator
  | Type locator string
  | Press locator string
  | KeyboardPress string
  | WaitForTimeout nat

record element =
  innerText :: string
  textContent :: "string option"
  visible :: bool

text \<open>
  A page at one moment: the elements each locator matches, in document order, and the
  actions the page does not let the library complete (an element that is covered, not
  editable, matched more than once, and so on).
\<close>

record dom =
  elements :: "locator \<Rightarrow> element list"
  refuses :: "call \<Rightarrow> bool"

fun resolve :: "dom \<Rightarrow> locator \<Rightarrow> element list" where
  "resolve d (Nth l i) = (if i < length (resolve d l) then [resolve d l ! i] else [])"
| "resolve d (First l) = take 1 (resolve d l)"
| "resolve d l = elements d l"

text \<open>
  An error value. \<open>Error\<close> is \<^verbatim>\<open>new Error(message)\<close> in the code of this
  repository; \<open>LibraryError\<close> is an error raised inside the library, with its name and
  its message.
\<close>

datatype jsError = Error string | LibraryError string string





text \<open>
  \<^verbatim>\<open>class WebTableHelper { constructor(private page: Page) {} ... }\<close>: the object
  has one field, the page it was made for. A page is referred to by a handle.
\<close>

type_synonym handle = nat

record WebTableHelper =
  page :: handle

text \<open>
  The state a test runs in: the helper object; the wall clock in milliseconds
  (\<^verbatim>\<open>Date.now()\<close>); the time a library call issued at a given moment takes; what
  each page shows at each moment; the error the library raises when a call fails; and the
  calls made so far, oldest first. Time passes in library calls only; the code between
  them takes none.
\<close>

record state =
  helper :: WebTableHelper
  clock :: nat
  lag :: "nat \<Rightarrow> nat"
  render :: "handle \<Rightarrow> nat \<Rightarrow> dom"
  thrown :: "call \<Rightarrow> string \<times> string"
  trace :: "(handle \<times> call) list"

definition current :: "handle \<Rightarrow> state \<Rightarrow> dom" where
  "current p s = render s p (clock s)"

definition called :: "handle \<Rightarrow> call \<Rightarrow> state \<Rightarrow> state" where
  "called p c s = s\<lparr>clock := clock s + lag s (clock s), trace := trace s @ [(p, c)]\<rparr>"

definition libraryError :: "state \<Rightarrow> call \<Rightarrow> jsError" where
  "libraryError s c = LibraryError (fst (thrown s c)) (snd (thrown s c))"

text \<open>
  The library calls. A query is answered from the page as it is when the call is made; a
  call on a single element that the page does not have, or has more than once, raises the
  library's error (the library's own waiting for the element is not modelled).
\<close>

definition locator_count :: "handle \<Rightarrow> locator \<Rightarrow> state \<Rightarrow> nat \<times> state" where
  "locator_count p l s = (length (resolve (current p s) l), called p (Count l) s)"

definition locator_allInnerTexts :: "handle \<Rightarrow> locator \<Rightarrow> state \<Rightarrow> string list \<times> state" where
  "locator_allInnerTexts p l s =
     (map innerText (resolve (current p s) l), called p (AllInnerTexts l) s)"

definition locator_innerText :: "handle \<Rightarrow> locator \<Rightarrow> state \<Rightarrow> (jsError + string) \<times> state" where
  "locator_innerText p l s =
     ((case resolve (current p s) l of
         [e] \<Rightarrow> Inr (innerText e)
       | _ \<Rightarrow> Inl (libraryError s (InnerText l))),
      called p (InnerText l) s)"

definition locator_textContent ::
  "handle \<Rightarrow> locator \<Rightarrow> state \<Rightarrow> (jsError + string option) \<times> state" where
  "locator_textContent p l s =
     ((case resolve (current p s) l of
         [e] \<Rightarrow> Inr (textContent e)
       | _ \<Rightarrow> Inl (libraryError s (TextContent l))),
      called p (TextContent l) s)"

definition expect_toBeVisible :: "handle \<Rightarrow> locator \<Rightarrow> state \<Rightarrow> (jsError + unit) \<times> state" where
  "expect_toBeVisible p l s =
     ((case resolve (current p s) l of
         [e] \<Rightarrow> if visible e then Inr () else Inl (libraryError s (ToBeVisible l))
       | _ \<Rightarrow> Inl (libraryError s (ToBeVisible l))),
      called p (ToBeVisible l) s)"

text \<open>\<^verbatim>\<open>locator.waitFor({ state: 'visible', timeout })\<close>.\<close>

definition locator_waitFor ::
  "handle \<Rightarrow> locator \<Rightarrow> nat \<Rightarrow> state \<Rightarrow> (jsError + unit) \<times> state" where
  "locator_waitFor p l timeout s =
     ((case resolve (current p s) l of
         [e] \<Rightarrow> if visible e then Inr () else Inl (libraryError s (WaitFor l timeout))
       | _ \<Rightarrow> Inl (libraryError s (WaitFor l timeout))),
      called p (WaitFor l timeout) s)"

text \<open>An action: carried out unless the page refuses it.\<close>

definition action :: "handle \<Rightarrow> call \<Rightarrow> state \<Rightarrow> (jsError + unit) \<times> state" where
  "action p c s =
     ((if refuses (current p s) c then Inl (libraryError s c) else Inr ()), called p c s)"

definition locator_fill :: "handle \<Rightarrow> locator \<Rightarrow> string \<Rightarrow> state \<Rightarrow> (jsError + unit) \<times> state" where
  "locator_fill p l text s = action p (Fill l text) s"

definition locator_click :: "handle \<Rightarrow> locator \<Rightarrow> state \<Rightarrow> (jsError + unit) \<times> state" where
  "locator_click p l s = action p (Click l) s"




text \<open>\<^verbatim>\<open>page.waitForTimeout(ms)\<close>: the clock moves on by at least \<open>ms\<close>.\<close>

definition page_waitForTimeout :: "handle \<Rightarrow> nat \<Rightarrow> state \<Rightarrow> state" where
  "page_waitForTimeout p ms s =
     s\<lparr>clock := clock s + ms + lag s (clock s), trace := trace s @ [(p, WaitForTimeout ms)]\<rparr>"

section \<open>WebTableHelper\<close>

text \<open>
  \<^verbatim>\<open>getHeaders\<close>: the inner texts of \<^verbatim>\<open>table thead th\<close>, each trimmed. Console
  output and the test report (\<^verbatim>\<open>console.log\<close>, \<^verbatim>\<open>test.step\<close>,
  \<^verbatim>\<open>test.info().attach\<close>) are not modelled.
\<close>

definition getHeaders :: "state \<Rightarrow> string list \<times> state" where
  "getHeaders s =
     (case locator_allInnerTexts (page (helper s)) (Selector ''table thead th'') s of
        (headers, s1) \<Rightarrow> (map trim headers, s1))"

text \<open>
  \<^verbatim>\<open>getColumnIndex(columnName, mode = 'partial')\<close>. An absent \<open>mode\<close> argument is
  \<^term>\<open>None\<close>.
\<close>

definition getColumnIndex ::
  "string \<Rightarrow> MatchMode option \<Rightarrow> state \<Rightarrow> (jsError + nat) \<times> state" where
  \<open>getColumnIndex columnName modeArg s =
     (let mode = (case modeArg of None \<Rightarrow> partial | Some m \<Rightarrow> m) in
      case getHeaders s of
        (headers, s1) \<Rightarrow>
          (case findIndex (\<lambda>h. match h columnName mode) headers of
             None \<Rightarrow>
               (Inl (Error (''Column "'' @ columnName @ ''" not found.\<newline>Available: ''
                            @ join '', '' headers)), s1)
           | Some index \<Rightarrow> (Inr index, s1)))\<close>

text \<open>
  \<^verbatim>\<open>getRow(rowText, options?: { timeout?: number; mode?: MatchMode })\<close>. The inner
  \<^verbatim>\<open>for\<close> loop reads the rows \<open>i, ..., count - 1\<close> one by one and stops at the first
  whose trimmed inner text matches; the result is the locator \<^verbatim>\<open>rows.nth(i)\<close>, or
  \<^term>\<open>None\<close> when the loop runs to its end.
\<close>

datatype rowOptions =
  RowOptions (row_timeout: "number option") (row_mode: "MatchMode option")

function scanRows ::
  "string \<Rightarrow> MatchMode \<Rightarrow> nat \<Rightarrow> nat \<Rightarrow> state \<Rightarrow> (jsError + locator option) \<times> state" where
  "scanRows rowText mode i count s =
     (if i < count then
        (let row = Nth (ByRole ''row'') i in
         case locator_innerText (page (helper s)) row s of
           (Inl e, s1) \<Rightarrow> (Inl e, s1)
         | (Inr text, s1) \<Rightarrow>
             if match (trim text) rowText mode then (Inr (Some row), s1)
             else scanRows rowText mode (i + 1) count s1)
      else (Inr None, s))"
  by pat_completeness auto
termination
  by (relation "measure (\<lambda>(rowText, mode, i, count, s). count - i)") auto

declare scanRows.simps [simp del]

text \<open>
  The \<^verbatim>\<open>while (Date.now() - start < timeout)\<close> loop, and what follows it. The loop
  need not end (the time-out may be \<^verbatim>\<open>Infinity\<close>), so the function is partial:
  \<^term>\<open>None\<close> is a run that never returns.
\<close>

partial_function (option) pollRows ::
  "string \<Rightarrow> number \<Rightarrow> MatchMode \<Rightarrow> nat \<Rightarrow> state \<Rightarrow> ((jsError + locator) \<times> state) option" where
  \<open>pollRows rowText timeout mode start s =
     (if lessThan (int (clock s) - int start) timeout then
        (case locator_count (page (helper s)) (ByRole ''row'') s of
           (count, s1) \<Rightarrow>
             (case scanRows rowText mode 0 count s1 of
                (Inl e, s2) \<Rightarrow> Some (Inl e, s2)
              | (Inr (Some row), s2) \<Rightarrow> Some (Inr row, s2)
              | (Inr None, s2) \<Rightarrow>
                  pollRows rowText timeout mode start
                    (page_waitForTimeout (page (helper s2)) 300 s2)))
      else
        (case locator_allInnerTexts (page (helper s)) (ByRole ''row'') s of
           (allRows, s1) \<Rightarrow>
             Some (Inl (Error (''Row "'' @ rowText @ ''" not found after ''
                               @ showNumber timeout @ ''ms\<newline>Available:\<newline>''
                               @ join ''\<newline>'' allRows)), s1)))\<close>

declare pollRows.simps [code]

definition getRow ::
  "string \<Rightarrow> rowOptions option \<Rightarrow> state \<Rightarrow> ((jsError + locator) \<times> state) option" where
  "getRow rowText options s =
     (let timeout = (case Option.bind options row_timeout of None \<Rightarrow> Finite 5000 | Some t \<Rightarrow> t);
          mode = (case Option.bind options row_mode of None \<Rightarrow> partial | Some m \<Rightarrow> m);
          start = clock s
      in pollRows rowText timeout mode start s)"

text \<open>
  \<^verbatim>\<open>getCellValue(rowText, columnName, options?: { timeout?; matchMode?;
  columnMatchMode? })\<close>. The value is \<^verbatim>\<open>(await cell.textContent())?.trim() || null\<close>;
  \<^verbatim>\<open>null\<close> is \<^term>\<open>None\<close>.
\<close>

datatype cellOptions =
  CellOptions (cell_timeout: "number option") (cell_matchMode: "MatchMode option")
    (cell_columnMatchMode: "MatchMode option")

definition trimOrNull :: "string option \<Rightarrow> string option" where
  "trimOrNull content =
     (case content of
        None \<Rightarrow> None
      | Some text \<Rightarrow> if trim text = [] then None else Some (trim text))"

definition getCellValue ::
  "string \<Rightarrow> string \<Rightarrow> cellOptions option \<Rightarrow> state
     \<Rightarrow> ((jsError + string option) \<times> state) option" where
  "getCellValue rowText columnName options s =
     (case getRow rowText
             (Some (RowOptions (Option.bind options cell_timeout)
                (Some (case Option.bind options cell_matchMode of
                         None \<Rightarrow> partial | Some m \<Rightarrow> m)))) s of
        None \<Rightarrow> None
      | Some (Inl e, s1) \<Rightarrow> Some (Inl e, s1)
      | Some (Inr row, s1) \<Rightarrow>
          (case getColumnIndex columnName
                  (Some (case Option.bind options cell_columnMatchMode of
                           None \<Rightarrow> partial | Some m \<Rightarrow> m)) s1 of
             (Inl e, s2) \<Rightarrow> Some (Inl e, s2)
           | (Inr colIndex, s2) \<Rightarrow>
               (let cell = Nth (Within row (ByRole ''cell'')) colIndex in
                case expect_toBeVisible (page (helper s2)) cell s2 of
                  (Inl e, s3) \<Rightarrow> Some (Inl e, s3)
                | (Inr u, s3) \<Rightarrow>
                    (case locator_textContent (page (helper s3)) cell s3 of
                       (Inl e, s4) \<Rightarrow> Some (Inl e, s4)
                     | (Inr content, s4) \<Rightarrow> Some (Inr (trimOrNull content), s4)))))"

text \<open>
  \<^verbatim>\<open>clickCellAction(rowText, columnName, buttonName)\<close>. The source does not await
  \<^verbatim>\<open>expect(button).toBeVisible()\<close>: the check is made and its outcome is dropped.
\<close>

definition clickCellAction ::
  "string \<Rightarrow> string \<Rightarrow> string \<Rightarrow> state \<Rightarrow> ((jsError + unit) \<times> state) option" where
  \<open>clickCellAction rowText columnName buttonName s =
     (case getRow rowText None s of
        None \<Rightarrow> None
      | Some (Inl e, s1) \<Rightarrow> Some (Inl e, s1)
      | Some (Inr row, s1) \<Rightarrow>
          (case getColumnIndex columnName None s1 of
             (Inl e, s2) \<Rightarrow> Some (Inl e, s2)
           | (Inr colIndex, s2) \<Rightarrow>
               (let button = Within (Nth (Within row (ByRole ''cell'')) colIndex)
                               (Selector (''[title="'' @ buttonName @ ''"]''))
                in case expect_toBeVisible (page (helper s2)) button s2 of
                     (dropped, s3) \<Rightarrow> Some (locator_click (page (helper s3)) button s3))))\<close>

text \<open>
  \<^verbatim>\<open>getColumnValues(columnName)\<close>. \<open>collectValues\<close> is its \<^verbatim>\<open>for\<close> loop, which
  starts at row 1 and keeps the texts that are not empty after trimming.
\<close>

function collectValues ::
  "nat \<Rightarrow> nat \<Rightarrow> nat \<Rightarrow> string list \<Rightarrow> state \<Rightarrow> (jsError + string list) \<times> state" where
  "collectValues colIndex i count values s =
     (if i < count then
        (let cell = Nth (Within (Nth (ByRole ''row'') i) (ByRole ''cell'')) colIndex in
         case locator_textContent (page (helper s)) cell s of
           (Inl e, s1) \<Rightarrow> (Inl e, s1)
         | (Inr content, s1) \<Rightarrow>
             (case trimOrNull content of
                None \<Rightarrow> collectValues colIndex (i + 1) count values s1
              | Some t \<Rightarrow> collectValues colIndex (i + 1) count (values @ [t]) s1))
      else (Inr values, s))"
  by pat_completeness auto
termination
  by (relation "measure (\<lambda>(colIndex, i, count, values, s). count - i)") auto

declare collectValues.simps [simp del]

definition getColumnValues :: "string \<Rightarrow> state \<Rightarrow> (jsError + string list) \<times> state" where
  "getColumnValues columnName s =
     (case getColumnIndex columnName (Some partial) s of
        (Inl e, s1) \<Rightarrow> (Inl e, s1)
      | (Inr colIndex, s1) \<Rightarrow>
          (case locator_count (page (helper s1)) (ByRole ''row'') s1 of
             (count, s2) \<Rightarrow> collectValues colIndex 1 count [] s2))"

section \<open>WebTablePage\<close>




section \<open>CommonUserActionsPage\<close>

text \<open>
  The selectors come from \<^verbatim>\<open>CommonLocators\<close>, whose functions from a name to a
  selector are parameters here. \<open>thisPage\<close> is the page of the
  \<^verbatim>\<open>CommonUserActionsPage\<close> object.
\<close>

record CommonLocators =
  inputFieldLocator :: "string \<Rightarrow> string"
  buttonLocator :: "string \<Rightarrow> string"
  checkBoxLocator :: "string \<Rightarrow> string"
  radioButtonLocator :: "string \<Rightarrow> string"
  datePickerLocator :: "string \<Rightarrow> string"

definition inputOnField ::
  "CommonLocators \<Rightarrow> handle \<Rightarrow> string \<Rightarrow> string \<Rightarrow> state \<Rightarrow> (jsError + unit) \<times> state" where
  \<open>inputOnField L thisPage fieldName textInput s =
     (let roleLocator = ByRoleName ''textbox'' fieldName in
      case locator_count thisPage roleLocator s of
        (n1, s1) \<Rightarrow>
          if n1 > 0 then locator_fill thisPage roleLocator textInput s1
          else
            (let labelLocator = ByLabel fieldName in
             case locator_count thisPage labelLocator s1 of
               (n2, s2) \<Rightarrow>
                 if n2 > 0 then locator_fill thisPage labelLocator textInput s2
                 else
                   (let placeholderLocator = ByPlaceholder fieldName in
                    case locator_count thisPage placeholderLocator s2 of
                      (n3, s3) \<Rightarrow>
                        if n3 > 0 then locator_fill thisPage placeholderLocator textInput s3
                        else
                          (let relativeXPathLocator = inputFieldLocator L fieldName;
                               xpathLocator = Selector relativeXPathLocator in
                           case locator_count thisPage xpathLocator s3 of
                             (n4, s4) \<Rightarrow>
                               if n4 > 0 then locator_fill thisPage xpathLocator textInput s4
                               else
                                 (Inl (Error (''Input field "'' @ fieldName
                                    @ ''" not found using role, label, placeholder, or relative XPath.'')),
                                  s4)))))\<close>








section \<open>Pages and states to try the operations on\<close>

text \<open>
  A page that shows one table: the header texts of \<^verbatim>\<open>table thead th\<close>, and
  the rows, each with its inner text and the text contents of its cells. Every element is
  visible and no action is refused.
\<close>

definition shown :: "string \<Rightarrow> element" where
  "shown t = \<lparr>innerText = t, textContent = Some t, visible = True\<rparr>"

fun tableElements :: "string list \<Rightarrow> (string \<times> string list) list \<Rightarrow> locator \<Rightarrow> element list" where
  "tableElements hs rs (Selector sel) = (if sel = ''table thead th'' then map shown hs else [])"
| "tableElements hs rs (ByRole r) = (if r = ''row'' then map (shown \<circ> fst) rs else [])"
| "tableElements hs rs (Within (Nth (ByRole r) i) (ByRole c)) =
     (if r = ''row'' \<and> c = ''cell'' \<and> i < length rs then map shown (snd (rs ! i)) else [])"
| "tableElements hs rs l = []"

definition tablePage :: "string list \<Rightarrow> (string \<times> string list) list \<Rightarrow> dom" where
  "tablePage hs rs = \<lparr>elements = tableElements hs rs, refuses = (\<lambda>c. False)\<rparr>"

text \<open>
  Errors in the manner of the library, to try the operations with: the message says
  which call failed and describes its locator the way the locator was built.
\<close>

fun describe :: "locator \<Rightarrow> string" where
  "describe (Selector sel) = ''locator('' @ [CHR 0x27] @ sel @ [CHR 0x27] @ '')''"
| "describe (ByRole r) = ''getByRole('' @ [CHR 0x27] @ r @ [CHR 0x27] @ '')''"
| "describe (ByRoleName r n) =
     ''getByRole('' @ [CHR 0x27] @ r @ [CHR 0x27] @ '', { name: '' @ [CHR 0x27] @ n @ [CHR 0x27]
       @ '', exact: true })''"
| "describe (ByLabel t) =
     ''getByLabel('' @ [CHR 0x27] @ t @ [CHR 0x27] @ '', { exact: true })''"
| "describe (ByPlaceholder t) =
     ''getByPlaceholder('' @ [CHR 0x27] @ t @ [CHR 0x27] @ '', { exact: true })''"
| "describe (Nth l i) = describe l @ ''.nth('' @ showNat i @ '')''"
| "describe (First l) = describe l @ ''.first()''"
| "describe (Within outer l) = describe outer @ ''.'' @ describe l"

fun reported :: "call \<Rightarrow> string \<times> string" where
  "reported (ToBeVisible l) =
     (''Error'', ''expect(locator).toBeVisible() failed. Locator: '' @ describe l)"
| "reported (WaitFor l t) =
     (''TimeoutError'', ''locator.waitFor: Timeout '' @ showNat t @ ''ms exceeded. Waiting for ''
        @ describe l @ '' to be visible'')"
| "reported (InnerText l) =
     (''TimeoutError'', ''locator.innerText: Timeout exceeded. Waiting for '' @ describe l)"
| "reported (TextContent l) =
     (''TimeoutError'', ''locator.textContent: Timeout exceeded. Waiting for '' @ describe l)"
| "reported (Fill l v) =
     (''TimeoutError'', ''locator.fill: Timeout exceeded. Waiting for '' @ describe l)"
| "reported (Click l) =
     (''TimeoutError'', ''locator.click: Timeout exceeded. Waiting for '' @ describe l)"
| "reported (Type l v) =
     (''TimeoutError'', ''locator.type: Timeout exceeded. Waiting for '' @ describe l)"
| "reported (Press l k) =
     (''TimeoutError'', ''locator.press: Timeout exceeded. Waiting for '' @ describe l)"
| "reported c = (''Error'', ''Target page, context or browser has been closed'')"

text \<open>
  A table of two columns. Its first row is the header row, which has no cells of role
  \<^verbatim>\<open>cell\<close>; the last row has one cell only.
\<close>

definition people :: dom where
  "people =
     tablePage [''First Name'', '' Email '']
       [(''First Name Email'', []),
        (''Cierra cierra@example.com'', [''Cierra'', '' cierra@example.com '']),
        (''Alden'', [''Alden''])]"

text \<open>
  The same table with its columns the other way round, and a state in which page \<open>0\<close>
  shows \<open>people\<close> for the first 100 milliseconds and the other table from then on; each
  library call takes 100 milliseconds.
\<close>

definition reordered :: dom where
  "reordered =
     tablePage [''Email'', ''First Name'']
       [(''Email First Name'', []),
        (''cierra@example.com Cierra'', [''cierra@example.com'', ''Cierra''])]"

definition changing :: state where
  "changing =
     \<lparr>helper = \<lparr>page = 0\<rparr>, clock = 0, lag = (\<lambda>t. 100),
      render = (\<lambda>p t. if t < 100 then people else reordered),
      thrown = reported, trace = []\<rparr>"

text \<open>A page with one input field, found by its label \<open>Email\<close> only.\<close>

definition form :: dom where
  "form =
     \<lparr>elements = (\<lambda>l. if l = ByLabel ''Email'' then [shown []] else []),
      refuses = (\<lambda>c. False)\<rparr>"

text \<open>Selector functions to try the page actions with.\<close>

definition xpaths :: CommonLocators where
  \<open>xpaths =
     \<lparr>inputFieldLocator = (\<lambda>name. ''//input[@name="'' @ name @ ''"]''),
      buttonLocator = (\<lambda>name. ''//button[text()="'' @ name @ ''"]''),
      checkBoxLocator = (\<lambda>name. ''//label[text()="'' @ name @ ''"]/input[@type="checkbox"]''),
      radioButtonLocator = (\<lambda>name. ''//label[text()="'' @ name @ ''"]/input[@type="radio"]''),
      datePickerLocator = (\<lambda>name. ''//label[text()="'' @ name @ ''"]/following::input[1]'')\<rparr>\<close>

text \<open>A state at time \<open>t0\<close> in which page \<open>0\<close> shows \<open>d\<close> for good, each call takes \<open>k\<close>
  milliseconds, and no call has been made.\<close>

definition still :: "dom \<Rightarrow> nat \<Rightarrow> nat \<Rightarrow> state" where
  "still d t0 k =
     \<lparr>helper = \<lparr>page = 0\<rparr>, clock = t0, lag = (\<lambda>t. k), render = (\<lambda>p t. d),
      thrown = reported, trace = []\<rparr>"

section \<open>Notions used in the statements\<close>

text \<open>
  \<open>extends s s'\<close>: \<open>s'\<close> is \<open>s\<close> some calls later. The helper object and the
  environment are the same, the clock has not gone back, and the calls of \<open>s\<close> are the
  first calls of \<open>s'\<close>.
\<close>

definition extends :: "state \<Rightarrow> state \<Rightarrow> bool" where
  "extends s s' =
     (helper s' = helper s \<and> lag s' = lag s \<and> render s' = render s \<and> thrown s' = thrown s
      \<and> clock s \<le> clock s' \<and> prefix (trace s) (trace s'))"

text \<open>The calls made between \<open>s\<close> and a later state \<open>s'\<close>.\<close>

definition calls :: "state \<Rightarrow> state \<Rightarrow> (handle \<times> call) list" where
  "calls s s' = drop (length (trace s)) (trace s')"

text \<open>
  The time-out and the mode \<^verbatim>\<open>getRow\<close> works with:
  \<^verbatim>\<open>options?.timeout ?? 5000\<close> and \<^verbatim>\<open>options?.mode ?? 'partial'\<close>.
\<close>

definition timeoutOf :: "rowOptions option \<Rightarrow> number" where
  "timeoutOf options = (case Option.bind options row_timeout of None \<Rightarrow> Finite 5000 | Some t \<Rightarrow> t)"

definition modeOf :: "rowOptions option \<Rightarrow> MatchMode" where
  "modeOf options = (case Option.bind options row_mode of None \<Rightarrow> partial | Some m \<Rightarrow> m)"



text \<open>The header texts \<^verbatim>\<open>getHeaders\<close> reads in state \<open>s\<close>.\<close>

definition headerTexts :: "state \<Rightarrow> string list" where
  "headerTexts s =
     map (trim \<circ> innerText) (resolve (current (page (helper s)) s) (Selector ''table thead th''))"

text \<open>A row element whose trimmed inner text matches \<open>rowText\<close>.\<close>

definition rowMatches :: "string \<Rightarrow> MatchMode \<Rightarrow> element \<Rightarrow> bool" where
  "rowMatches rowText mode e = match (trim (innerText e)) rowText mode"

text \<open>The message \<^verbatim>\<open>getRow\<close> gives up with.\<close>

definition rowNotFound :: "string \<Rightarrow> number \<Rightarrow> string list \<Rightarrow> string" where
  \<open>rowNotFound rowText timeout allRows =
     ''Row "'' @ rowText @ ''" not found after '' @ showNumber timeout
       @ ''ms\<newline>Available:\<newline>'' @ join ''\<newline>'' allRows\<close>

text \<open>The message \<^verbatim>\<open>getColumnIndex\<close> fails with.\<close>

definition columnNotFound :: "string \<Rightarrow> string list \<Rightarrow> string" where
  \<open>columnNotFound columnName headers =
     ''Column "'' @ columnName @ ''" not found.\<newline>Available: '' @ join '', '' headers\<close>



text \<open>
  The locators \<^verbatim>\<open>inputOnField\<close> tries, in its order, and the message it fails with.
\<close>

definition strategies :: "CommonLocators \<Rightarrow> string \<Rightarrow> locator list" where
  "strategies L fieldName =
     [ByRoleName ''textbox'' fieldName, ByLabel fieldName, ByPlaceholder fieldName,
      Selector (inputFieldLocator L fieldName)]"

definition fieldNotFound :: "string \<Rightarrow> string" where
  \<open>fieldNotFound fieldName =
     ''Input field "'' @ fieldName
       @ ''" not found using role, label, placeholder, or relative XPath.''\<close>


section \<open>Facts about the string operations\<close>

lemma startsWith_iff: "startsWith s t \<longleftrightarrow> (\<exists>q. s = t @ q)"
  by (induction s t rule: startsWith.induct) auto

lemma includes_iff: "str_includes s t \<longleftrightarrow> (\<exists>p q. s = p @ t @ q)"
proof (induction s)
  case Nil
  then show ?case by auto
next
  case (Cons c s)
  show ?case
  proof
    assume "str_includes (c # s) t"
    then consider "startsWith (c # s) t" | "str_includes s t" by auto
    then show "\<exists>p q. c # s = p @ t @ q"
    proof cases
      case 1
      then obtain q where "c # s = t @ q" by (auto simp: startsWith_iff)
      then have "c # s = [] @ t @ q" by simp
      then show ?thesis by blast
    next
      case 2
      then obtain p q where "s = p @ t @ q" using Cons.IH by auto
      then have "c # s = (c # p) @ t @ q" by simp
      then show ?thesis by blast
    qed
  next
    assume "\<exists>p q. c # s = p @ t @ q"
    then obtain p q where pq: "c # s = p @ t @ q" by blast
    show "str_includes (c # s) t"
    proof (cases p)
      case Nil
      with pq have "startsWith (c # s) t" by (auto simp: startsWith_iff)
      then show ?thesis by simp
    next
      case (Cons d p')
      with pq have "s = p' @ t @ q" by simp
      then have "str_includes s t" using Cons.IH by blast
      then show ?thesis by simp
    qed
  qed
qed











section \<open>Facts about the operations\<close>

lemma findIndex_Some_iff:
  "findIndex p xs = Some i \<longleftrightarrow> i < length xs \<and> p (xs ! i) \<and> (\<forall>j<i. \<not> p (xs ! j))"
proof (induction xs arbitrary: i)
  case Nil
  then show ?case by simp
next
  case (Cons x xs)
  show ?case
  proof (cases "p x")
    case True
    then show ?thesis by (cases i) auto
  next
    case False
    then show ?thesis
      using Cons.IH by (cases i) (auto simp: less_Suc_eq_0_disj)
  qed
qed

lemma findIndex_None_iff: "findIndex p xs = None \<longleftrightarrow> (\<forall>x\<in>set xs. \<not> p x)"
  by (induction xs) auto

lemma extends_refl: "extends s s"
  by (simp add: extends_def)

lemma extends_trans: "extends s t \<Longrightarrow> extends t u \<Longrightarrow> extends s u"
  by (auto simp: extends_def intro: prefix_order.trans)

lemma extends_called: "extends s (called p c s)"
  by (simp add: extends_def called_def)

lemma extends_waitForTimeout: "extends s (page_waitForTimeout p ms s)"
  by (simp add: extends_def page_waitForTimeout_def)

lemma extends_innerText: "locator_innerText p l s = (r, s') \<Longrightarrow> extends s s'"
  by (auto simp: locator_innerText_def extends_called)

lemma extends_scanRows: "scanRows rowText mode i n s = (r, s') \<Longrightarrow> extends s s'"
proof (induction rowText mode i n s arbitrary: r s' rule: scanRows.induct)
  case (1 rowText mode i count s)
  show ?case
  proof (cases "i < count")
    case False
    with "1.prems" show ?thesis by (simp add: extends_refl scanRows.simps [of _ _ i])
  next
    case True
    obtain x s1 where it: "locator_innerText (page (helper s)) (Nth (ByRole ''row'') i) s = (x, s1)"
      by (cases "locator_innerText (page (helper s)) (Nth (ByRole ''row'') i) s")
    then have e1: "extends s s1" by (rule extends_innerText)
    show ?thesis
    proof (cases x)
      case (Inl err)
      with True it "1.prems" e1 show ?thesis by (simp add: scanRows.simps [of _ _ i])
    next
      case (Inr t)
      show ?thesis
      proof (cases "match (trim t) rowText mode")
        case True
        with \<open>i < count\<close> it Inr "1.prems" e1 show ?thesis
          by (simp add: scanRows.simps [of _ _ i])
      next
        case False
        with \<open>i < count\<close> it Inr "1.prems"
        have "scanRows rowText mode (i + 1) count s1 = (r, s')"
          by (simp add: scanRows.simps [of _ _ i])
        with "1.IH" [OF \<open>i < count\<close> refl it [symmetric] Inr False]
        have "extends s1 s'" by simp
        with e1 show ?thesis by (rule extends_trans)
      qed
    qed
  qed
qed

lemma extends_count: "locator_count p l s = (r, s') \<Longrightarrow> extends s s'"
  by (auto simp: locator_count_def extends_called)

lemma extends_allInnerTexts: "locator_allInnerTexts p l s = (r, s') \<Longrightarrow> extends s s'"
  by (auto simp: locator_allInnerTexts_def extends_called)

lemma extends_textContent: "locator_textContent p l s = (r, s') \<Longrightarrow> extends s s'"
  by (auto simp: locator_textContent_def extends_called)

lemma extends_toBeVisible: "expect_toBeVisible p l s = (r, s') \<Longrightarrow> extends s s'"
  by (auto simp: expect_toBeVisible_def extends_called)

lemma extends_waitFor: "locator_waitFor p l t s = (r, s') \<Longrightarrow> extends s s'"
  by (auto simp: locator_waitFor_def extends_called)

lemma extends_action: "action p c s = (r, s') \<Longrightarrow> extends s s'"
  by (auto simp: action_def extends_called)

lemma extends_getHeaders: "getHeaders s = (r, s') \<Longrightarrow> extends s s'"
  by (auto simp: getHeaders_def split: prod.splits dest: extends_allInnerTexts)

lemma extends_getColumnIndex: "getColumnIndex columnName modeArg s = (r, s') \<Longrightarrow> extends s s'"
  by (auto simp: getColumnIndex_def Let_def split: prod.splits option.splits
      dest: extends_getHeaders)

lemma extends_pollRows:
  "pollRows rowText timeout mode start s = Some (r, s') \<Longrightarrow> extends s s'"
proof -
  have "extends s (snd y)" if "pollRows rowText timeout mode start s = Some y" for y
    using that
  proof (induction rowText timeout mode start s y
      rule: pollRows.raw_induct [rotated, consumes 1, case_names step])
    case (step pollRows' rowText timeout mode start s y)
    show ?case
    proof (cases "lessThan (int (clock s) - int start) timeout")
      case False
      with step show ?thesis
        by (auto split: prod.splits dest: extends_allInnerTexts)
    next
      case True
      obtain count s1 where c: "locator_count (page (helper s)) (ByRole ''row'') s = (count, s1)"
        by (cases "locator_count (page (helper s)) (ByRole ''row'') s")
      obtain x s2 where sc: "scanRows rowText mode 0 count s1 = (x, s2)"
        by (cases "scanRows rowText mode 0 count s1")
      from c have e1: "extends s s1" by (rule extends_count)
      from sc have e2: "extends s1 s2" by (rule extends_scanRows)
      from e1 e2 have e12: "extends s s2" by (rule extends_trans)
      show ?thesis
      proof (cases x)
        case (Inl err)
        with True c sc step e12 show ?thesis by auto
      next
        case (Inr found)
        show ?thesis
        proof (cases found)
          case (Some row)
          with True c sc Inr step e12 show ?thesis by auto
        next
          case None
          with True c sc Inr step
          have "pollRows' rowText timeout mode start
                  (page_waitForTimeout (page (helper s2)) 300 s2) = Some y"
            by simp
          then have "extends (page_waitForTimeout (page (helper s2)) 300 s2) (snd y)"
            by (rule step.IH)
          with e12 extends_waitForTimeout show ?thesis by (blast intro: extends_trans)
        qed
      qed
    qed
  qed
  then show "pollRows rowText timeout mode start s = Some (r, s') \<Longrightarrow> extends s s'"
    by fastforce
qed

lemma extends_getRow: "getRow rowText options s = Some (r, s') \<Longrightarrow> extends s s'"
  by (simp add: getRow_def Let_def extends_pollRows)

lemma extends_getCellValue:
  "getCellValue rowText columnName options s = Some (r, s') \<Longrightarrow> extends s s'"
  unfolding getCellValue_def Let_def
  by (auto split: option.splits sum.splits prod.splits
      dest!: extends_getRow extends_getColumnIndex extends_toBeVisible extends_textContent
      intro: extends_trans)



lemma extends_clock: "extends s s' \<Longrightarrow> clock s \<le> clock s'"
  by (simp add: extends_def)


lemma current_static: "render s p = (\<lambda>t. d) \<Longrightarrow> current p s = d"
  by (simp add: current_def)


lemma resolve_Nth:
  "i < length (resolve d l) \<Longrightarrow> resolve d (Nth l i) = [resolve d l ! i]"
  by simp

lemma scanRows_static:
  assumes "render s (page (helper s)) = (\<lambda>t. d)"
    and "count = length (resolve d (ByRole ''row''))"
    and "i \<le> count"
  shows "fst (scanRows rowText mode i count s) =
           Inr (map_option (\<lambda>k. Nth (ByRole ''row'') (i + k))
                  (findIndex (rowMatches rowText mode) (drop i (resolve d (ByRole ''row'')))))"
  using assms
proof (induction rowText mode i count s rule: scanRows.induct)
  case (1 rowText mode i count s)
  let ?rows = "resolve d (ByRole ''row'')"
  show ?case
  proof (cases "i < count")
    case False
    with "1.prems" show ?thesis by (subst scanRows.simps) simp
  next
    case True
    let ?row = "Nth (ByRole ''row'') i"
    let ?s1 = "called (page (helper s)) (InnerText ?row) s"
    from True "1.prems" have res: "resolve d ?row = [?rows ! i]" by simp
    with "1.prems" have it:
      "locator_innerText (page (helper s)) ?row s = (Inr (innerText (?rows ! i)), ?s1)"
      by (simp add: locator_innerText_def current_static)
    from True "1.prems" have dr: "drop i ?rows = ?rows ! i # drop (Suc i) ?rows"
      by (simp add: Cons_nth_drop_Suc)
    show ?thesis
    proof (cases "match (trim (innerText (?rows ! i))) rowText mode")
      case m: True
      with True it dr show ?thesis by (subst scanRows.simps) (simp add: rowMatches_def Let_def)
    next
      case m: False
      have st: "render ?s1 (page (helper ?s1)) = (\<lambda>t. d)"
        using "1.prems" by (simp add: called_def)
      from True have le: "i + 1 \<le> count" by simp
      have "fst (scanRows rowText mode (i + 1) count ?s1) =
              Inr (map_option (\<lambda>k. Nth (ByRole ''row'') (i + 1 + k))
                    (findIndex (rowMatches rowText mode) (drop (i + 1) ?rows)))"
        by (rule "1.IH" [OF True refl it [symmetric] refl m st "1.prems"(2) le])
      with True it dr m show ?thesis
        by (subst scanRows.simps) (simp add: rowMatches_def option.map_comp comp_def Let_def)
    qed
  qed
qed

lemma scanRows_static':
  assumes "render s (page (helper s)) = (\<lambda>t. d)"
    and "count = length (resolve d (ByRole ''row''))"
    and "scanRows rowText mode 0 count s = (x, s')"
  shows "x = Inr (map_option (\<lambda>k. Nth (ByRole ''row'') k)
                  (findIndex (rowMatches rowText mode) (resolve d (ByRole ''row''))))"
  using scanRows_static [OF assms(1,2), of 0 rowText mode] assms(3) by simp


lemma static_count:
  assumes "render s (page (helper s)) = (\<lambda>t. d)"
    and "locator_count (page (helper s)) (ByRole ''row'') s = (count, s1)"
  shows "count = length (resolve d (ByRole ''row''))"
    and "render s1 (page (helper s1)) = (\<lambda>t. d)"
  using assms by (auto simp: locator_count_def current_static called_def)



lemma pollRows_static_found:
  assumes "render s (page (helper s)) = (\<lambda>t. d)"
    and "lessThan (int (clock s) - int start) timeout"
    and "findIndex (rowMatches rowText mode) (resolve d (ByRole ''row'')) = Some k"
  shows "\<exists>s'. pollRows rowText timeout mode start s = Some (Inr (Nth (ByRole ''row'') k), s')"
proof -
  let ?rows = "resolve d (ByRole ''row'')"
  obtain count s1 where c: "locator_count (page (helper s)) (ByRole ''row'') s = (count, s1)"
    by (cases "locator_count (page (helper s)) (ByRole ''row'') s")
  obtain x s2 where sc: "scanRows rowText mode 0 count s1 = (x, s2)"
    by (cases "scanRows rowText mode 0 count s1")
  from assms(1) c have n: "count = length ?rows" and st1: "render s1 (page (helper s1)) = (\<lambda>t. d)"
    by (rule static_count)+
  from st1 n sc have x: "x = Inr (map_option (\<lambda>k. Nth (ByRole ''row'') k)
                (findIndex (rowMatches rowText mode) ?rows))"
    by (rule scanRows_static')
  with assms c sc show ?thesis
    by (subst pollRows.simps) simp
qed


lemma str_includes_mid: "str_includes (a @ b @ c) b"
  by (auto simp: includes_iff)


lemma getColumnIndex_eq:
  "fst (getColumnIndex columnName modeArg s) =
     (case findIndex (\<lambda>h. match h columnName (case modeArg of None \<Rightarrow> partial | Some m \<Rightarrow> m))
             (headerTexts s) of
        None \<Rightarrow> Inl (Error (columnNotFound columnName (headerTexts s)))
      | Some index \<Rightarrow> Inr index)"
  by (simp add: getColumnIndex_def getHeaders_def locator_allInnerTexts_def headerTexts_def
      columnNotFound_def Let_def split: option.splits)

lemma innerText_Inr:
  "locator_innerText p l s = (Inr t, s') \<Longrightarrow>
     \<exists>e. resolve (current p s) l = [e] \<and> t = innerText e \<and> s' = called p (InnerText l) s"
  by (auto simp: locator_innerText_def split: list.splits)

lemma innerText_Inl:
  "locator_innerText p l s = (Inl err, s') \<Longrightarrow> err = libraryError s (InnerText l)"
  by (auto simp: locator_innerText_def split: list.splits)


lemma libraryError_extends: "extends s s' \<Longrightarrow> libraryError s' c = libraryError s c"
  by (simp add: libraryError_def extends_def)

lemma helper_extends: "extends s s' \<Longrightarrow> helper s' = helper s"
  by (simp add: extends_def)

lemma scanRows_found:
  "scanRows rowText mode i n s = (Inr (Some row), s') \<Longrightarrow>
     \<exists>k sk e. row = Nth (ByRole ''row'') k \<and> i \<le> k \<and> k < n \<and> extends s sk \<and> extends sk s'
        \<and> resolve (current (page (helper sk)) sk) row = [e] \<and> rowMatches rowText mode e"
proof (induction rowText mode i n s rule: scanRows.induct)
  case (1 rowText mode i count s)
  show ?case
  proof (cases "i < count")
    case False
    with "1.prems" show ?thesis by (subst (asm) scanRows.simps) simp
  next
    case True
    let ?row = "Nth (ByRole ''row'') i"
    obtain x s1 where it: "locator_innerText (page (helper s)) ?row s = (x, s1)"
      by (cases "locator_innerText (page (helper s)) ?row s")
    then have e1: "extends s s1" by (rule extends_innerText)
    show ?thesis
    proof (cases x)
      case (Inl err)
      with True it "1.prems" show ?thesis by (subst (asm) scanRows.simps) simp
    next
      case (Inr t)
      with it obtain e where e: "resolve (current (page (helper s)) s) ?row = [e]"
        and t: "t = innerText e"
        by (auto dest: innerText_Inr)
      show ?thesis
      proof (cases "match (trim t) rowText mode")
        case m: True
        with True it Inr "1.prems" have "row = ?row" and "s' = s1"
          by (subst (asm) scanRows.simps, simp)+
        with True e t m e1
        have "row = ?row \<and> i \<le> i \<and> i < count \<and> extends s s \<and> extends s s'
          \<and> resolve (current (page (helper s)) s) row = [e] \<and> rowMatches rowText mode e"
          by (simp add: rowMatches_def extends_refl del: resolve.simps)
        then show ?thesis by blast
      next
        case m: False
        with True it Inr "1.prems"
        have "scanRows rowText mode (i + 1) count s1 = (Inr (Some row), s')"
          by (subst (asm) scanRows.simps) simp
        from "1.IH" [OF True refl it [symmetric] Inr m this]
        obtain k sk e' where k: "row = Nth (ByRole ''row'') k" "i + 1 \<le> k" "k < count"
          "extends s1 sk" "extends sk s'"
          "resolve (current (page (helper sk)) sk) row = [e']" "rowMatches rowText mode e'"
          by blast
        from e1 k(4) have "extends s sk" by (rule extends_trans)
        moreover from k(2) have "i \<le> k" by simp
        ultimately show ?thesis using k by blast
      qed
    qed
  qed
qed

lemma scanRows_error:
  "scanRows rowText mode i n s = (Inl err, s') \<Longrightarrow>
     \<exists>k. err = libraryError s (InnerText (Nth (ByRole ''row'') k)) \<and> i \<le> k \<and> k < n"
proof (induction rowText mode i n s rule: scanRows.induct)
  case (1 rowText mode i count s)
  show ?case
  proof (cases "i < count")
    case False
    with "1.prems" show ?thesis by (subst (asm) scanRows.simps) simp
  next
    case True
    let ?row = "Nth (ByRole ''row'') i"
    obtain x s1 where it: "locator_innerText (page (helper s)) ?row s = (x, s1)"
      by (cases "locator_innerText (page (helper s)) ?row s")
    then have e1: "extends s s1" by (rule extends_innerText)
    show ?thesis
    proof (cases x)
      case (Inl err')
      with True it "1.prems" have "err = err'"
        by (subst (asm) scanRows.simps) simp
      with it Inl True show ?thesis by (auto dest: innerText_Inl)
    next
      case (Inr t)
      show ?thesis
      proof (cases "match (trim t) rowText mode")
        case m: True
        with True it Inr "1.prems" show ?thesis by (subst (asm) scanRows.simps) simp
      next
        case m: False
        with True it Inr "1.prems"
        have "scanRows rowText mode (i + 1) count s1 = (Inl err, s')"
          by (subst (asm) scanRows.simps) simp
        from "1.IH" [OF True refl it [symmetric] Inr m this]
        obtain k where "err = libraryError s1 (InnerText (Nth (ByRole ''row'') k))"
          "i + 1 \<le> k" "k < count" by blast
        with e1 show ?thesis by (auto simp: libraryError_extends)
      qed
    qed
  qed
qed

lemma lessThan_mono: "\<not> lessThan x t \<Longrightarrow> x \<le> x' \<Longrightarrow> \<not> lessThan x' t"
  by (cases t) auto

lemma pollRows_outcome:
  assumes "pollRows rowText timeout mode start s = Some y"
  shows "(\<exists>k sk e. fst y = Inr (Nth (ByRole ''row'') k) \<and> extends s sk \<and> extends sk (snd y)
            \<and> resolve (current (page (helper sk)) sk) (Nth (ByRole ''row'') k) = [e]
            \<and> rowMatches rowText mode e)
       \<or> (\<exists>allRows. fst y = Inl (Error (rowNotFound rowText timeout allRows))
            \<and> \<not> lessThan (int (clock (snd y)) - int start) timeout)
       \<or> (\<exists>k. fst y = Inl (libraryError s (InnerText (Nth (ByRole ''row'') k))))"
  using assms
proof (induction rowText timeout mode start s y
    rule: pollRows.raw_induct [rotated, consumes 1, case_names step])
  case (step pollRows' rowText timeout mode start s y)
  show ?case
  proof (cases "lessThan (int (clock s) - int start) timeout")
    case False
    obtain allRows s1 where a: "locator_allInnerTexts (page (helper s)) (ByRole ''row'') s = (allRows, s1)"
      by (cases "locator_allInnerTexts (page (helper s)) (ByRole ''row'') s")
    then have "clock s \<le> clock s1" by (intro extends_clock extends_allInnerTexts)
    then have "int (clock s) - int start \<le> int (clock s1) - int start" by simp
    with False have "\<not> lessThan (int (clock s1) - int start) timeout"
      by (rule lessThan_mono)
    moreover from False a step.hyps
    have "y = (Inl (Error (rowNotFound rowText timeout allRows)), s1)"
      by (auto simp: rowNotFound_def)
    ultimately show ?thesis by auto
  next
    case True
    obtain count s1 where c: "locator_count (page (helper s)) (ByRole ''row'') s = (count, s1)"
      by (cases "locator_count (page (helper s)) (ByRole ''row'') s")
    obtain x s2 where sc: "scanRows rowText mode 0 count s1 = (x, s2)"
      by (cases "scanRows rowText mode 0 count s1")
    from c have e1: "extends s s1" by (rule extends_count)
    from sc have e2: "extends s1 s2" by (rule extends_scanRows)
    from e1 e2 have e12: "extends s s2" by (rule extends_trans)
    show ?thesis
    proof (cases x)
      case (Inl err)
      with sc obtain k where "err = libraryError s1 (InnerText (Nth (ByRole ''row'') k))"
        by (auto dest: scanRows_error)
      with e1 have "err = libraryError s (InnerText (Nth (ByRole ''row'') k))"
        by (simp add: libraryError_extends)
      moreover from True c sc Inl step.hyps have "y = (Inl err, s2)" by simp
      ultimately show ?thesis by auto
    next
      case (Inr found)
      show ?thesis
      proof (cases found)
        case (Some row)
        with sc Inr have "scanRows rowText mode 0 count s1 = (Inr (Some row), s2)" by simp
        then obtain k sk e where k: "row = Nth (ByRole ''row'') k" "extends s1 sk" "extends sk s2"
          "resolve (current (page (helper sk)) sk) row = [e]" "rowMatches rowText mode e"
          by (blast dest: scanRows_found)
        from e1 k(2) have "extends s sk" by (rule extends_trans)
        moreover from True c sc Inr Some step.hyps have "y = (Inr row, s2)" by simp
        ultimately have "fst y = Inr (Nth (ByRole ''row'') k) \<and> extends s sk \<and> extends sk (snd y)
            \<and> resolve (current (page (helper sk)) sk) (Nth (ByRole ''row'') k) = [e]
            \<and> rowMatches rowText mode e"
          using k by (simp del: resolve.simps)
        then show ?thesis by blast
      next
        case None
        let ?s3 = "page_waitForTimeout (page (helper s2)) 300 s2"
        have e3: "extends s ?s3"
          using e12 extends_waitForTimeout by (rule extends_trans)
        from True c sc Inr None step.hyps
        have "pollRows' rowText timeout mode start ?s3 = Some y" by simp
        from step.IH [OF this] consider
          (found) k sk e where "fst y = Inr (Nth (ByRole ''row'') k)" "extends ?s3 sk"
            "extends sk (snd y)"
            "resolve (current (page (helper sk)) sk) (Nth (ByRole ''row'') k) = [e]"
            "rowMatches rowText mode e"
        | (gaveUp) allRows where "fst y = Inl (Error (rowNotFound rowText timeout allRows))"
            "\<not> lessThan (int (clock (snd y)) - int start) timeout"
        | (library) k where "fst y = Inl (libraryError ?s3 (InnerText (Nth (ByRole ''row'') k)))"
          by blast
        then show ?thesis
        proof cases
          case found
          from e3 found(2) have "extends s sk" by (rule extends_trans)
          with found show ?thesis by blast
        next
          case gaveUp
          then show ?thesis by blast
        next
          case library
          with e3 have "fst y = Inl (libraryError s (InnerText (Nth (ByRole ''row'') k)))"
            by (simp add: libraryError_extends)
          then show ?thesis by blast
        qed
      qed
    qed
  qed
qed


lemma calls_called: "calls s (called p c s) = [(p, c)]"
  by (simp add: calls_def called_def)



lemma trace_calls: "extends s s' \<Longrightarrow> trace s' = trace s @ calls s s'"
  by (auto simp: calls_def extends_def prefix_def)








lemma getRow_eq:
  "getRow rowText options s = pollRows rowText (timeoutOf options) (modeOf options) (clock s) s"
  by (simp add: getRow_def timeoutOf_def modeOf_def)




lemma getRow_Inr:
  assumes "getRow rowText options s = Some (Inr row, s1)"
  shows "\<exists>i. row = Nth (ByRole ''row'') i" and "extends s s1"
proof -
  from assms have y: "pollRows rowText (timeoutOf options) (modeOf options) (clock s) s
      = Some (Inr row, s1)"
    by (simp add: getRow_eq)
  from pollRows_outcome [OF y] show "\<exists>i. row = Nth (ByRole ''row'') i" by auto
  from y show "extends s s1" by (rule extends_pollRows)
qed

lemma getCellValue_Inr:
  assumes "getCellValue rowText columnName options s = Some (Inr v, s')"
  shows "\<exists>row s1 colIndex s2 s3 content.
      getRow rowText
        (Some (RowOptions (Option.bind options cell_timeout)
           (Some (case Option.bind options cell_matchMode of None \<Rightarrow> partial | Some m \<Rightarrow> m)))) s
        = Some (Inr row, s1)
      \<and> getColumnIndex columnName
           (Some (case Option.bind options cell_columnMatchMode of None \<Rightarrow> partial | Some m \<Rightarrow> m)) s1
          = (Inr colIndex, s2)
      \<and> expect_toBeVisible (page (helper s2)) (Nth (Within row (ByRole ''cell'')) colIndex) s2
          = (Inr (), s3)
      \<and> locator_textContent (page (helper s3)) (Nth (Within row (ByRole ''cell'')) colIndex) s3
          = (Inr content, s')
      \<and> v = trimOrNull content"
  using assms unfolding getCellValue_def Let_def
  by (simp split: option.splits prod.splits sum.splits)





lemma count_static:
  assumes "render s p = (\<lambda>t. d)"
  shows "locator_count p l s = (length (resolve d l), called p (Count l) s)"
  using assms by (simp add: locator_count_def current_static)

lemma render_called: "render (called p c s) = render s"
  by (simp add: called_def)

lemma fill_static:
  assumes "render s p = (\<lambda>t. d)"
  shows "locator_fill p l v s =
     ((if refuses d (Fill l v) then Inl (libraryError s (Fill l v)) else Inr ()),
      called p (Fill l v) s)"
  using assms by (simp add: locator_fill_def action_def current_static)

lemma calls_called_more: "calls s (called p c s') = calls s s' @ [(p, c)]" if "extends s s'"
  using that by (auto simp: calls_def called_def extends_def prefix_def)

lemma libraryError_called: "libraryError (called p c s) = libraryError s"
  by (simp add: libraryError_def called_def fun_eq_iff)

lemma inputOnField_static:
  assumes "render s thisPage = (\<lambda>t. d)"
  shows "fst (inputOnField L thisPage fieldName textInput s) =
     (case findIndex (\<lambda>l. resolve d l \<noteq> []) (strategies L fieldName) of
        None \<Rightarrow> Inl (Error (fieldNotFound fieldName))
      | Some k \<Rightarrow>
          (if refuses d (Fill (strategies L fieldName ! k) textInput)
           then Inl (libraryError s (Fill (strategies L fieldName ! k) textInput))
           else Inr ()))"
    and "calls s (snd (inputOnField L thisPage fieldName textInput s)) =
     (case findIndex (\<lambda>l. resolve d l \<noteq> []) (strategies L fieldName) of
        None \<Rightarrow> map (\<lambda>l. (thisPage, Count l)) (strategies L fieldName)
      | Some k \<Rightarrow>
          map (\<lambda>l. (thisPage, Count l)) (take (Suc k) (strategies L fieldName))
            @ [(thisPage, Fill (strategies L fieldName ! k) textInput)])"
proof -
  let ?l1 = "ByRoleName ''textbox'' fieldName"
  let ?l2 = "ByLabel fieldName"
  let ?l3 = "ByPlaceholder fieldName"
  let ?l4 = "Selector (inputFieldLocator L fieldName)"
  let ?s1 = "called thisPage (Count ?l1) s"
  let ?s2 = "called thisPage (Count ?l2) ?s1"
  let ?s3 = "called thisPage (Count ?l3) ?s2"
  let ?s4 = "called thisPage (Count ?l4) ?s3"
  let ?fill = "\<lambda>l. if refuses d (Fill l textInput) then Inl (libraryError s (Fill l textInput))
                   else Inr ()"
  have st: "render ?s1 thisPage = (\<lambda>t. d)" "render ?s2 thisPage = (\<lambda>t. d)"
    "render ?s3 thisPage = (\<lambda>t. d)" "render ?s4 thisPage = (\<lambda>t. d)"
    using assms by (simp_all add: render_called)
  note c = count_static [OF assms] count_static [OF st(1)] count_static [OF st(2)]
    count_static [OF st(3)]
  note f = fill_static [OF st(1)] fill_static [OF st(2)] fill_static [OF st(3)]
    fill_static [OF st(4)]
  have eq: "inputOnField L thisPage fieldName textInput s =
     (if resolve d ?l1 \<noteq> [] then (?fill ?l1, called thisPage (Fill ?l1 textInput) ?s1)
      else if resolve d ?l2 \<noteq> [] then (?fill ?l2, called thisPage (Fill ?l2 textInput) ?s2)
      else if resolve d ?l3 \<noteq> [] then (?fill ?l3, called thisPage (Fill ?l3 textInput) ?s3)
      else if resolve d ?l4 \<noteq> [] then (?fill ?l4, called thisPage (Fill ?l4 textInput) ?s4)
      else (Inl (Error (fieldNotFound fieldName)), ?s4))"
    unfolding inputOnField_def Let_def fieldNotFound_def
    by (simp add: c f libraryError_called del: resolve.simps)
  show "fst (inputOnField L thisPage fieldName textInput s) =
     (case findIndex (\<lambda>l. resolve d l \<noteq> []) (strategies L fieldName) of
        None \<Rightarrow> Inl (Error (fieldNotFound fieldName))
      | Some k \<Rightarrow>
          (if refuses d (Fill (strategies L fieldName ! k) textInput)
           then Inl (libraryError s (Fill (strategies L fieldName ! k) textInput))
           else Inr ()))"
    unfolding eq strategies_def by (simp del: resolve.simps)
  show "calls s (snd (inputOnField L thisPage fieldName textInput s)) =
     (case findIndex (\<lambda>l. resolve d l \<noteq> []) (strategies L fieldName) of
        None \<Rightarrow> map (\<lambda>l. (thisPage, Count l)) (strategies L fieldName)
      | Some k \<Rightarrow>
          map (\<lambda>l. (thisPage, Count l)) (take (Suc k) (strategies L fieldName))
            @ [(thisPage, Fill (strategies L fieldName ! k) textInput)])"
    unfolding eq strategies_def by (simp add: calls_def called_def del: resolve.simps)
qed


lemma fieldNotFound_names: "str_includes (fieldNotFound fieldName) fieldName"
  unfolding fieldNotFound_def by (rule str_includes_mid)







lemma calls_getColumnIndex:
  "calls s (snd (getColumnIndex columnName modeArg s))
     = [(page (helper s), AllInnerTexts (Selector ''table thead th''))]"
  by (simp add: getColumnIndex_def getHeaders_def locator_allInnerTexts_def Let_def calls_called
      split: option.splits)

lemma headerTexts_trace: "headerTexts (s\<lparr>trace := tr\<rparr>) = headerTexts s"
  by (simp add: headerTexts_def current_def)



lemma action_result:
  "fst (action p c s) = Inr () \<or> fst (action p c s) = Inl (libraryError s c)"
  by (simp add: action_def)











lemma extends_click: "locator_click p l s = (r, s') \<Longrightarrow> extends s s'"
  by (simp add: locator_click_def extends_action)

lemma extends_clickCellAction:
  "clickCellAction rowText columnName buttonName s = Some (r, s') \<Longrightarrow> extends s s'"
  unfolding clickCellAction_def Let_def
  by (auto split: option.splits sum.splits prod.splits
      dest!: extends_getRow extends_getColumnIndex extends_toBeVisible extends_click
      intro: extends_trans)

lemma extends_collectValues:
  "collectValues colIndex i count values s = (r, s') \<Longrightarrow> extends s s'"
proof (induction colIndex i count "values" s rule: collectValues.induct)
  case (1 colIndex i count vs s)
  let ?cell = "Nth (Within (Nth (ByRole ''row'') i) (ByRole ''cell'')) colIndex"
  show ?case
  proof (cases "i < count")
    case False
    with 1(3) show ?thesis by (simp add: collectValues.simps [of colIndex i count vs s] extends_refl)
  next
    case True
    obtain x s1 where t: "locator_textContent (page (helper s)) ?cell s = (x, s1)"
      by (cases "locator_textContent (page (helper s)) ?cell s")
    from t have e: "extends s s1" by (rule extends_textContent)
    show ?thesis
    proof (cases x)
      case (Inl err)
      with True t 1(3) e show ?thesis
        by (simp add: collectValues.simps [of colIndex i count vs s])
    next
      case (Inr content)
      show ?thesis
      proof (cases "trimOrNull content")
        case None
        with True t Inr 1(3) have "collectValues colIndex (i + 1) count vs s1 = (r, s')"
          by (simp add: collectValues.simps [of colIndex i count vs s])
        with 1(1) [OF True refl t [symmetric] Inr None] e show ?thesis
          by (blast intro: extends_trans)
      next
        case (Some v)
        with True t Inr 1(3) have "collectValues colIndex (i + 1) count (vs @ [v]) s1 = (r, s')"
          by (simp add: collectValues.simps [of colIndex i count vs s])
        with 1(2) [OF True refl t [symmetric] Inr Some] e show ?thesis
          by (blast intro: extends_trans)
      qed
    qed
  qed
qed

lemma extends_getColumnValues: "getColumnValues columnName s = (r, s') \<Longrightarrow> extends s s'"
  unfolding getColumnValues_def
  by (auto split: sum.splits prod.splits
      dest!: extends_getColumnIndex extends_count extends_collectValues
      intro: extends_trans)

section \<open>The claims\<close>












text \<open>
  C6. On a page that does not change during the call, \<^verbatim>\<open>inputOnField\<close> asks for
  the count of its four locators in the order role \<open>textbox\<close> with the exact name, exact
  label, exact placeholder, relative XPath. At the first locator \<open>k\<close> with a count above
  zero it fills that locator and makes no further call; the result is that of the fill.
  It throws the error that names the field exactly when all four locators match nothing,
  after the four counts.
\<close>

theorem C6_inputOnField:
  assumes "render s thisPage = (\<lambda>t. d)"
  shows "strategies L fieldName =
           [ByRoleName ''textbox'' fieldName, ByLabel fieldName, ByPlaceholder fieldName,
            Selector (inputFieldLocator L fieldName)]
     \<and> (k < 4 \<and> resolve d (strategies L fieldName ! k) \<noteq> []
          \<and> (\<forall>j<k. resolve d (strategies L fieldName ! j) = []) \<longrightarrow>
          calls s (snd (inputOnField L thisPage fieldName textInput s)) =
            map (\<lambda>l. (thisPage, Count l)) (take (Suc k) (strategies L fieldName))
              @ [(thisPage, Fill (strategies L fieldName ! k) textInput)]
          \<and> fst (inputOnField L thisPage fieldName textInput s) =
              (if refuses d (Fill (strategies L fieldName ! k) textInput)
               then Inl (libraryError s (Fill (strategies L fieldName ! k) textInput))
               else Inr ()))
     \<and> (fst (inputOnField L thisPage fieldName textInput s) = Inl (Error (fieldNotFound fieldName))
          \<longleftrightarrow> (\<forall>l\<in>set (strategies L fieldName). resolve d l = []))
     \<and> ((\<forall>l\<in>set (strategies L fieldName). resolve d l = []) \<longrightarrow>
          calls s (snd (inputOnField L thisPage fieldName textInput s)) =
            map (\<lambda>l. (thisPage, Count l)) (strategies L fieldName))
     \<and> str_includes (fieldNotFound fieldName) fieldName"
proof -
  let ?found = "findIndex (\<lambda>l. resolve d l \<noteq> []) (strategies L fieldName)"
  note r = inputOnField_static [OF assms, of L fieldName textInput]
  have len: "length (strategies L fieldName) = 4" by (simp add: strategies_def)
  have 1: "strategies L fieldName =
           [ByRoleName ''textbox'' fieldName, ByLabel fieldName, ByPlaceholder fieldName,
            Selector (inputFieldLocator L fieldName)]"
    by (simp add: strategies_def)
  have 2: "k < 4 \<and> resolve d (strategies L fieldName ! k) \<noteq> []
          \<and> (\<forall>j<k. resolve d (strategies L fieldName ! j) = []) \<longrightarrow>
          calls s (snd (inputOnField L thisPage fieldName textInput s)) =
            map (\<lambda>l. (thisPage, Count l)) (take (Suc k) (strategies L fieldName))
              @ [(thisPage, Fill (strategies L fieldName ! k) textInput)]
          \<and> fst (inputOnField L thisPage fieldName textInput s) =
              (if refuses d (Fill (strategies L fieldName ! k) textInput)
               then Inl (libraryError s (Fill (strategies L fieldName ! k) textInput))
               else Inr ())"
  proof
    assume "k < 4 \<and> resolve d (strategies L fieldName ! k) \<noteq> []
          \<and> (\<forall>j<k. resolve d (strategies L fieldName ! j) = [])"
    with len have "?found = Some k" by (simp add: findIndex_Some_iff del: resolve.simps)
    with r show "calls s (snd (inputOnField L thisPage fieldName textInput s)) =
            map (\<lambda>l. (thisPage, Count l)) (take (Suc k) (strategies L fieldName))
              @ [(thisPage, Fill (strategies L fieldName ! k) textInput)]
          \<and> fst (inputOnField L thisPage fieldName textInput s) =
              (if refuses d (Fill (strategies L fieldName ! k) textInput)
               then Inl (libraryError s (Fill (strategies L fieldName ! k) textInput))
               else Inr ())"
      by (simp del: resolve.simps)
  qed
  have none: "?found = None \<longleftrightarrow> (\<forall>l\<in>set (strategies L fieldName). resolve d l = [])"
    by (simp add: findIndex_None_iff del: resolve.simps)
  have 3: "fst (inputOnField L thisPage fieldName textInput s) = Inl (Error (fieldNotFound fieldName))
          \<longleftrightarrow> (\<forall>l\<in>set (strategies L fieldName). resolve d l = [])"
    unfolding none [symmetric] r(1)
    by (cases ?found) (simp_all add: libraryError_def)
  have 4: "(\<forall>l\<in>set (strategies L fieldName). resolve d l = []) \<longrightarrow>
          calls s (snd (inputOnField L thisPage fieldName textInput s)) =
            map (\<lambda>l. (thisPage, Count l)) (strategies L fieldName)"
    unfolding none [symmetric] r(2) by simp
  from 1 2 3 4 fieldNotFound_names show ?thesis by (intro conjI)
qed

theorem C6_inputOnField_witness:
  "render (still form 0 0) 0 = (\<lambda>t. form)
   \<and> resolve form (strategies xpaths ''Email'' ! 1) \<noteq> []
   \<and> resolve form (strategies xpaths ''Email'' ! 0) = []
   \<and> calls (still form 0 0) (snd (inputOnField xpaths 0 ''Email'' ''a@b.c'' (still form 0 0)))
       = [(0, Count (ByRoleName ''textbox'' ''Email'')), (0, Count (ByLabel ''Email'')),
          (0, Fill (ByLabel ''Email'') ''a@b.c'')]
   \<and> fst (inputOnField xpaths 0 ''Email'' ''a@b.c'' (still form 0 0)) = Inr ()
   \<and> fst (inputOnField xpaths 0 ''Phone'' ''1'' (still form 0 0))
       = Inl (Error (fieldNotFound ''Phone''))"
proof -
  have st: "render (still form 0 0) 0 = (\<lambda>t. form)" by (simp add: still_def)
  have a: "resolve form (strategies xpaths ''Email'' ! 1) \<noteq> []"
    and b: "resolve form (strategies xpaths ''Email'' ! 0) = []"
    by (simp_all add: strategies_def form_def)
  from b have b': "\<forall>j<1. resolve form (strategies xpaths ''Email'' ! j) = []" by simp
  have none: "\<forall>l\<in>set (strategies xpaths ''Phone''). resolve form l = []"
    by (simp add: strategies_def form_def)
  from C6_inputOnField [OF st, of xpaths "''Email''" 1 "''a@b.c''"] a b'
  have c: "calls (still form 0 0) (snd (inputOnField xpaths 0 ''Email'' ''a@b.c'' (still form 0 0)))
       = [(0, Count (ByRoleName ''textbox'' ''Email'')), (0, Count (ByLabel ''Email'')),
          (0, Fill (ByLabel ''Email'') ''a@b.c'')]"
    and d: "fst (inputOnField xpaths 0 ''Email'' ''a@b.c'' (still form 0 0)) = Inr ()"
    by (simp_all add: strategies_def form_def)
  from C6_inputOnField [OF st, of xpaths "''Phone''" 0 "''1''"] none
  have e: "fst (inputOnField xpaths 0 ''Phone'' ''1'' (still form 0 0))
       = Inl (Error (fieldNotFound ''Phone''))"
    by blast
  from st a b c d e show ?thesis by blast
qed

text \<open>
  C7. The helper object has one field, its page, and none of its six operations changes
  the object.
  Nothing is kept from one call to the next: \<^verbatim>\<open>getColumnIndex\<close> reads the headers
  of the page anew, with one call to the library, its result is the one computed from the
  headers the page shows then, and it is the same whatever calls were made before. A
  \<^verbatim>\<open>getCellValue\<close> that returns a value has made such a read of the headers in its
  course, after finding the row, and has used the index found in them.
\<close>

theorem C7_no_caching:
  "helper s = \<lparr>page = page (helper s)\<rparr>
   \<and> helper (snd (getHeaders s)) = helper s
   \<and> helper (snd (getColumnIndex columnName modeArg s)) = helper s
   \<and> (\<forall>r1 s1. getRow rowText rowOptions s = Some (r1, s1) \<longrightarrow> helper s1 = helper s)
   \<and> (\<forall>r2 s2. getCellValue rowText columnName options s = Some (r2, s2) \<longrightarrow> helper s2 = helper s)
   \<and> (\<forall>r3 s3. clickCellAction rowText columnName buttonName s = Some (r3, s3) \<longrightarrow>
         helper s3 = helper s)
   \<and> helper (snd (getColumnValues columnName s)) = helper s
   \<and> calls s (snd (getColumnIndex columnName modeArg s))
       = [(page (helper s), AllInnerTexts (Selector ''table thead th''))]
   \<and> fst (getColumnIndex columnName modeArg s) =
       (case findIndex (\<lambda>h. match h columnName (case modeArg of None \<Rightarrow> partial | Some m \<Rightarrow> m))
               (headerTexts s) of
          None \<Rightarrow> Inl (Error (columnNotFound columnName (headerTexts s)))
        | Some index \<Rightarrow> Inr index)
   \<and> fst (getColumnIndex columnName modeArg (s\<lparr>trace := tr\<rparr>))
       = fst (getColumnIndex columnName modeArg s)
   \<and> (\<forall>v s2. getCellValue rowText columnName options s = Some (Inr v, s2) \<longrightarrow>
        (\<exists>sa sb j. extends s sa \<and> extends sb s2
           \<and> getColumnIndex columnName
                (Some (case Option.bind options cell_columnMatchMode of
                         None \<Rightarrow> partial | Some m \<Rightarrow> m)) sa = (Inr j, sb)
           \<and> findIndex (\<lambda>h. match h columnName
                  (case Option.bind options cell_columnMatchMode of
                     None \<Rightarrow> partial | Some m \<Rightarrow> m)) (headerTexts sa) = Some j
           \<and> calls sa sb = [(page (helper s), AllInnerTexts (Selector ''table thead th''))]))"
proof -
  have 1: "helper s = \<lparr>page = page (helper s)\<rparr>" by simp
  have "extends s (snd (getHeaders s))"
    by (rule extends_getHeaders [of _ "fst (getHeaders s)"]) simp
  then have 2: "helper (snd (getHeaders s)) = helper s" by (rule helper_extends)
  have "extends s (snd (getColumnIndex columnName modeArg s))"
    by (rule extends_getColumnIndex [of _ _ _ "fst (getColumnIndex columnName modeArg s)"]) simp
  then have 3: "helper (snd (getColumnIndex columnName modeArg s)) = helper s"
    by (rule helper_extends)
  have 4: "\<forall>r1 s1. getRow rowText rowOptions s = Some (r1, s1) \<longrightarrow> helper s1 = helper s"
    by (blast intro: helper_extends extends_getRow)
  have 5: "\<forall>r2 s2. getCellValue rowText columnName options s = Some (r2, s2) \<longrightarrow> helper s2 = helper s"
    by (blast intro: helper_extends extends_getCellValue)
  have 10: "\<forall>r3 s3. clickCellAction rowText columnName buttonName s = Some (r3, s3) \<longrightarrow>
         helper s3 = helper s"
    by (blast intro: helper_extends extends_clickCellAction)
  have "extends s (snd (getColumnValues columnName s))"
    by (rule extends_getColumnValues [of _ _ "fst (getColumnValues columnName s)"]) simp
  then have 11: "helper (snd (getColumnValues columnName s)) = helper s" by (rule helper_extends)
  note 6 = calls_getColumnIndex [of s columnName modeArg]
  note 7 = getColumnIndex_eq [of columnName modeArg s]
  have 8: "fst (getColumnIndex columnName modeArg (s\<lparr>trace := tr\<rparr>))
       = fst (getColumnIndex columnName modeArg s)"
    by (simp only: getColumnIndex_eq headerTexts_trace)
  have 9: "\<forall>v s2. getCellValue rowText columnName options s = Some (Inr v, s2) \<longrightarrow>
        (\<exists>sa sb j. extends s sa \<and> extends sb s2
           \<and> getColumnIndex columnName
                (Some (case Option.bind options cell_columnMatchMode of
                         None \<Rightarrow> partial | Some m \<Rightarrow> m)) sa = (Inr j, sb)
           \<and> findIndex (\<lambda>h. match h columnName
                  (case Option.bind options cell_columnMatchMode of
                     None \<Rightarrow> partial | Some m \<Rightarrow> m)) (headerTexts sa) = Some j
           \<and> calls sa sb = [(page (helper s), AllInnerTexts (Selector ''table thead th''))])"
  proof (intro allI impI)
    fix v s2
    let ?cm = "case Option.bind options cell_columnMatchMode of None \<Rightarrow> partial | Some m \<Rightarrow> m"
    assume "getCellValue rowText columnName options s = Some (Inr v, s2)"
    from getCellValue_Inr [OF this] obtain row s1 colIndex sb s3 content where
      r: "getRow rowText
        (Some (RowOptions (Option.bind options cell_timeout)
           (Some (case Option.bind options cell_matchMode of None \<Rightarrow> partial | Some m \<Rightarrow> m)))) s
        = Some (Inr row, s1)"
      and c: "getColumnIndex columnName (Some ?cm) s1 = (Inr colIndex, sb)"
      and e: "expect_toBeVisible (page (helper sb)) (Nth (Within row (ByRole ''cell'')) colIndex) sb
          = (Inr (), s3)"
      and t: "locator_textContent (page (helper s3)) (Nth (Within row (ByRole ''cell'')) colIndex) s3
          = (Inr content, s2)"
      by blast
    from getRow_Inr(2) [OF r] have e1: "extends s s1" .
    from e have "extends sb s3" by (rule extends_toBeVisible)
    moreover from t have "extends s3 s2" by (rule extends_textContent)
    ultimately have e2: "extends sb s2" by (rule extends_trans)
    from c have "fst (getColumnIndex columnName (Some ?cm) s1) = Inr colIndex" by simp
    then have f: "findIndex (\<lambda>h. match h columnName ?cm) (headerTexts s1) = Some colIndex"
      by (simp add: getColumnIndex_eq split: option.splits)
    from calls_getColumnIndex [of s1 columnName "Some ?cm"] c e1
    have k: "calls s1 sb = [(page (helper s), AllInnerTexts (Selector ''table thead th''))]"
      by (simp add: helper_extends)
    show "\<exists>sa sb j. extends s sa \<and> extends sb s2
           \<and> getColumnIndex columnName (Some ?cm) sa = (Inr j, sb)
           \<and> findIndex (\<lambda>h. match h columnName ?cm) (headerTexts sa) = Some j
           \<and> calls sa sb = [(page (helper s), AllInnerTexts (Selector ''table thead th''))]"
      by (rule exI [of _ s1], rule exI [of _ sb], rule exI [of _ colIndex],
          insert e1 e2 c f k) (intro conjI; assumption)
  qed
  from 1 2 3 4 5 10 11 6 7 8 9 show ?thesis by (intro conjI)
qed

theorem C7_no_caching_witness:
  "fst (getColumnIndex ''email'' None changing) = Inr 1
   \<and> fst (getColumnIndex ''email'' None (snd (getColumnIndex ''email'' None changing))) = Inr 0
   \<and> headerTexts changing = [''First Name'', ''Email'']
   \<and> headerTexts (snd (getColumnIndex ''email'' None changing)) = [''Email'', ''First Name'']
   \<and> helper (snd (getColumnIndex ''email'' None changing)) = \<lparr>page = 0\<rparr>
   \<and> map_option fst (getCellValue ''cierra'' ''email'' None (still people 0 0))
        = Some (Inr (Some ''cierra@example.com''))
   \<and> (\<exists>s2 sa sb. getCellValue ''cierra'' ''email'' None (still people 0 0)
          = Some (Inr (Some ''cierra@example.com''), s2)
        \<and> helper s2 = helper (still people 0 0)
        \<and> calls sa sb = [(0, AllInnerTexts (Selector ''table thead th''))]
        \<and> extends (still people 0 0) sa \<and> extends sb s2)"
proof -
  let ?s1 = "snd (getColumnIndex ''email'' None changing)"
  have h0: "headerTexts changing = [''First Name'', ''Email'']" by code_simp
  have h1: "headerTexts ?s1 = [''Email'', ''First Name'']" by code_simp
  have f0: "findIndex (\<lambda>h. match h ''email'' partial) [''First Name'', ''Email''] = Some 1"
    by code_simp
  have f1: "findIndex (\<lambda>h. match h ''email'' partial) [''Email'', ''First Name''] = Some 0"
    by code_simp
  from C7_no_caching [where s = changing and columnName = "''email''" and modeArg = None] h0 f0
  have a: "fst (getColumnIndex ''email'' None changing) = Inr 1"
    and hp: "helper ?s1 = helper changing"
    by simp_all
  from C7_no_caching [where s = ?s1 and columnName = "''email''" and modeArg = None] h1 f1
  have b: "fst (getColumnIndex ''email'' None ?s1) = Inr 0" by simp
  from hp have c: "helper ?s1 = \<lparr>page = 0\<rparr>" by (simp add: changing_def)
  have v: "map_option fst (getCellValue ''cierra'' ''email'' None (still people 0 0))
        = Some (Inr (Some ''cierra@example.com''))"
    by code_simp
  then obtain s2 where g: "getCellValue ''cierra'' ''email'' None (still people 0 0)
          = Some (Inr (Some ''cierra@example.com''), s2)"
    by (cases "getCellValue ''cierra'' ''email'' None (still people 0 0)") auto
  from C7_no_caching [where s = "still people 0 0" and rowText = "''cierra''"
      and columnName = "''email''" and options = None] g
  obtain sa sb where "helper s2 = helper (still people 0 0)"
    "calls sa sb = [(page (helper (still people 0 0)), AllInnerTexts (Selector ''table thead th''))]"
    "extends (still people 0 0) sa" "extends sb s2"
    by blast
  with g have d: "\<exists>s2 sa sb. getCellValue ''cierra'' ''email'' None (still people 0 0)
          = Some (Inr (Some ''cierra@example.com''), s2)
        \<and> helper s2 = helper (still people 0 0)
        \<and> calls sa sb = [(0, AllInnerTexts (Selector ''table thead th''))]
        \<and> extends (still people 0 0) sa \<and> extends sb s2"
    by (auto simp: still_def)
  from a b h0 h1 c v d show ?thesis by (intro conjI)
qed







end
